theory Spec2Isabelle
  imports Complex_Main "HOL-Library.Word" "HOL-Library.Sublist"
begin

section \<open>JavaScript values\<close>

text \<open>
  A JavaScript string is a sequence of UTF-16 code units. String literals of the source
  are ASCII and are written \<open>js ''...''\<close>.
\<close>

type_synonym jschar = "16 word"
type_synonym jsstring = "jschar list"
type_synonym byte = "8 word"

definition js :: "string \<Rightarrow> jsstring" where
  "js s = map of_char s"

text \<open>Numbers: the finite doubles are read as rationals; \<open>-0\<close> is read as \<open>0\<close>.\<close>

datatype jsnum = Fin rat | NaN | PosInf | NegInf

text \<open>
  Objects are lists of data properties (the first entry of a name is the property's
  value); \<open>JBytes\<close> is a Buffer.
\<close>

datatype jsval =
    JUndefined
  | JNull
  | JBool bool
  | JNum jsnum
  | JStr jsstring
  | JBytes "byte list"
  | JArr "jsval list"
  | JObj "(jsstring \<times> jsval) list"

text \<open>Truthiness, as \<open>!x\<close> and \<open>x || y\<close> read it.\<close>

fun truthy :: "jsval \<Rightarrow> bool" where
  "truthy JUndefined = False"
| "truthy JNull = False"
| "truthy (JBool b) = b"
| "truthy (JNum (Fin q)) = (q \<noteq> 0)"
| "truthy (JNum NaN) = False"
| "truthy (JNum PosInf) = True"
| "truthy (JNum NegInf) = True"
| "truthy (JStr s) = (s \<noteq> [])"
| "truthy (JBytes b) = True"
| "truthy (JArr xs) = True"
| "truthy (JObj kvs) = True"

definition nullish :: "jsval \<Rightarrow> bool" where
  "nullish v = (v = JUndefined \<or> v = JNull)"

text \<open>\<open>a || b\<close>\<close>

definition js_or :: "jsval \<Rightarrow> jsval \<Rightarrow> jsval" where
  "js_or a b = (if truthy a then a else b)"

text \<open>
  The value of property \<open>p\<close> of a value that is neither \<open>undefined\<close> nor \<open>null\<close>. Every
  property name the program reads (file, references, code, message, status, ...) is
  a name that strings, numbers, booleans, arrays and Buffers do not have, so reading it
  from one of them gives \<open>undefined\<close>.
\<close>

fun own :: "jsval \<Rightarrow> jsstring \<Rightarrow> jsval" where
  "own (JObj kvs) p = (case map_of kvs p of Some v \<Rightarrow> v | None \<Rightarrow> JUndefined)"
| "own v p = JUndefined"

text \<open>The TypeError that V8 raises when a property of \<open>undefined\<close> or \<open>null\<close> is read.\<close>

definition TypeError :: "jsstring \<Rightarrow> jsval" where
  "TypeError msg = JObj [(js ''name'', JStr (js ''TypeError'')), (js ''message'', JStr msg)]"

definition cannot_read :: "jsval \<Rightarrow> jsstring \<Rightarrow> jsval" where
  "cannot_read v p = TypeError
     (js ''Cannot read properties of '' @ (if v = JNull then js ''null'' else js ''undefined'')
      @ js '' (reading '' @ [0x27] @ p @ [0x27] @ js '')'')"

text \<open>\<open>v.p\<close>: throws on \<open>undefined\<close> and \<open>null\<close>.\<close>

definition get_prop :: "jsval \<Rightarrow> jsstring \<Rightarrow> jsval + jsval" where
  "get_prop v p = (if nullish v then Inl (cannot_read v p) else Inr (own v p))"

text \<open>\<open>v?.p\<close>: \<open>undefined\<close> on \<open>undefined\<close> and \<open>null\<close>.\<close>

definition opt_prop :: "jsval \<Rightarrow> jsstring \<Rightarrow> jsval" where
  "opt_prop v p = (if nullish v then JUndefined else own v p)"

section \<open>ImgfansError\<close>

text \<open>
  \<open>new ImgfansError(message, statusCode, response, cause)\<close>; the message has been
  converted to a string by the Error constructor.
\<close>

definition new_ImgfansError :: "jsstring \<Rightarrow> jsval \<Rightarrow> jsval \<Rightarrow> jsval \<Rightarrow> jsval" where
  "new_ImgfansError message statusCode response cause = JObj
     [(js ''name'', JStr (js ''ImgfansError'')),
      (js ''message'', JStr message),
      (js ''statusCode'', statusCode),
      (js ''response'', response),
      (js ''cause'', cause)]"

text \<open>\<open>new ImgfansError(message)\<close>\<close>

definition ImgfansError1 :: "jsstring \<Rightarrow> jsval" where
  "ImgfansError1 message = new_ImgfansError message JUndefined JUndefined JUndefined"

section \<open>Response accessors\<close>

definition validateResponse :: "jsval \<Rightarrow> jsval + unit" where
  "validateResponse response =
     (if \<not> truthy (opt_prop (opt_prop response (js ''file'')) (js ''references''))
      then Inl (ImgfansError1 (js ''Invalid response format from server''))
      else Inr ())"

text \<open>\<open>response.file.references\<close>\<close>

definition file_references :: "jsval \<Rightarrow> jsval + jsval" where
  "file_references response =
     (case get_prop response (js ''file'') of
        Inl e \<Rightarrow> Inl e
      | Inr f \<Rightarrow> get_prop f (js ''references''))"

text \<open>\<open>refs.<kind>.code\<close>\<close>

definition ref_code :: "jsval \<Rightarrow> jsstring \<Rightarrow> jsval + jsval" where
  "ref_code refs kind =
     (case get_prop refs kind of
        Inl e \<Rightarrow> Inl e
      | Inr entry \<Rightarrow> get_prop entry (js ''code''))"

definition read_reference :: "jsval \<Rightarrow> jsstring \<Rightarrow> jsval + jsval" where
  "read_reference response kind =
     (case validateResponse response of
        Inl e \<Rightarrow> Inl e
      | Inr _ \<Rightarrow>
          (case file_references response of
             Inl e \<Rightarrow> Inl e
           | Inr refs \<Rightarrow> ref_code refs kind))"

definition getDirectLink :: "jsval \<Rightarrow> jsval + jsval" where
  "getDirectLink response = read_reference response (js ''direct_link'')"

definition getMarkdownCode :: "jsval \<Rightarrow> jsval + jsval" where
  "getMarkdownCode response = read_reference response (js ''markdown'')"

definition getHtmlCode :: "jsval \<Rightarrow> jsval + jsval" where
  "getHtmlCode response = read_reference response (js ''html'')"

definition getAllReferences :: "jsval \<Rightarrow> jsval + jsval" where
  "getAllReferences response =
     (case validateResponse response of
        Inl e \<Rightarrow> Inl e
      | Inr _ \<Rightarrow>
     (case file_references response of
        Inl e \<Rightarrow> Inl e
      | Inr refs \<Rightarrow>
     (case ref_code refs (js ''direct_link'') of
        Inl e \<Rightarrow> Inl e
      | Inr directLink \<Rightarrow>
     (case ref_code refs (js ''download_link'') of
        Inl e \<Rightarrow> Inl e
      | Inr downloadLink \<Rightarrow>
     (case ref_code refs (js ''bbcode'') of
        Inl e \<Rightarrow> Inl e
      | Inr bbcode \<Rightarrow>
     (case ref_code refs (js ''html'') of
        Inl e \<Rightarrow> Inl e
      | Inr html \<Rightarrow>
     (case ref_code refs (js ''markdown'') of
        Inl e \<Rightarrow> Inl e
      | Inr markdown \<Rightarrow>
          Inr (JObj
            [(js ''directLink'', directLink),
             (js ''downloadLink'', downloadLink),
             (js ''bbcode'', bbcode),
             (js ''html'', html),
             (js ''markdown'', markdown)]))))))))"

text \<open>\<open>error instanceof ImgfansError\<close>, read off the \<open>name\<close> the constructor sets.\<close>

definition instanceof_ImgfansError :: "jsval \<Rightarrow> bool" where
  "instanceof_ImgfansError v = (own v (js ''name'') = JStr (js ''ImgfansError''))"

text \<open>The five keys of \<open>file.references\<close> in the wire format.\<close>

definition reference_kinds :: "jsstring list" where
  "reference_kinds =
     [js ''direct_link'', js ''download_link'', js ''bbcode'', js ''html'', js ''markdown'']"

text \<open>The value found at \<open>file.references\<close>, \<open>undefined\<close> when the path is broken.\<close>

definition references_of :: "jsval \<Rightarrow> jsval" where
  "references_of response = own (own response (js ''file'')) (js ''references'')"

section \<open>The platform\<close>

text \<open>
  What the program calls and does not define: string conversion of a value that is not
  a string, \<open>fs.existsSync\<close>, \<open>path.basename\<close>, \<open>new URL(s).pathname\<close> (\<open>Inl\<close>: the
  constructor throws), \<open>Buffer.from(s, 'base64')\<close>, \<open>axios.get(url, {responseType:
  'arraybuffer'})\<close> followed by \<open>Buffer.from(response.data)\<close> (\<open>Inl\<close>: the request is
  rejected with that value), and the transport under \<open>this.client.post('/upload',
  formData, ...)\<close> before the response interceptor runs (\<open>Inl\<close>: rejected, \<open>Inr\<close>: the
  response object).
\<close>

record client =
  client_baseURL :: jsstring
  client_headers :: "(jsstring \<times> jsstring) list"

datatype byte_source =
    BufferSource "byte list"
  | BlobSource nat
  | ReadableSource nat
  | FileStream jsstring

record platform =
  ToString :: "jsval \<Rightarrow> jsstring"
  existsSync :: "jsstring \<Rightarrow> bool"
  basename :: "jsstring \<Rightarrow> jsstring"
  URL_pathname :: "jsstring \<Rightarrow> jsval + jsstring"
  Buffer_from_base64 :: "jsstring \<Rightarrow> byte list"
  axios_get :: "jsstring \<Rightarrow> jsval + byte list"
  http_post :: "client \<Rightarrow> byte_source \<Rightarrow> jsstring \<Rightarrow> jsval + jsval"

text \<open>The calls that leave the process, in the order they are made.\<close>

datatype effect =
    HttpGet jsstring
  | FsExists jsstring
  | FsCreateReadStream jsstring
  | HttpPost client byte_source jsstring

section \<open>Error translation\<close>

text \<open>\<open>super(message)\<close>: the Error constructor stores the message as a string.\<close>

definition message_string :: "platform \<Rightarrow> jsval \<Rightarrow> jsstring" where
  "message_string pf v = (case v of JStr s \<Rightarrow> s | _ \<Rightarrow> ToString pf v)"

text \<open>\<open>axios.isAxiosError\<close>: an object whose \<open>isAxiosError\<close> is \<open>true\<close>.\<close>

fun is_object :: "jsval \<Rightarrow> bool" where
  "is_object (JObj kvs) = True"
| "is_object (JArr xs) = True"
| "is_object (JBytes b) = True"
| "is_object v = False"

definition isAxiosError :: "jsval \<Rightarrow> bool" where
  "isAxiosError payload = (is_object payload \<and> own payload (js ''isAxiosError'') = JBool True)"

definition getReadableErrorMessage :: "jsval \<Rightarrow> jsval + jsval" where
  "getReadableErrorMessage error =
     (case get_prop error (js ''response'') of
        Inl e \<Rightarrow> Inl e
      | Inr response \<Rightarrow>
          if opt_prop response (js ''status'') = JNum (Fin 413) then
            Inr (JStr (js ''The image file is too large. Please try a smaller file.''))
          else if opt_prop response (js ''status'') = JNum (Fin 415) then
            Inr (JStr (js ''The file type is not supported. Please upload a valid image file.''))
          else if opt_prop response (js ''status'') = JNum (Fin 401) then
            Inr (JStr (js ''Invalid or missing API token. Please check your credentials.''))
          else if own error (js ''code'') = JStr (js ''ECONNREFUSED'') then
            Inr (JStr (js ''Unable to connect to Imgfans server. Please check your internet connection.''))
          else
            Inr (js_or (opt_prop (opt_prop response (js ''data'')) (js ''message''))
                  (js_or (own error (js ''message''))
                    (JStr (js ''Upload failed for unknown reason'')))))"

text \<open>\<open>ImgfansError.fromError\<close>; \<open>Inl\<close> when the function itself throws.\<close>

definition fromError :: "platform \<Rightarrow> jsval \<Rightarrow> jsval + jsval" where
  "fromError pf error =
     (if isAxiosError error then
        (case get_prop error (js ''response'') of
           Inl e \<Rightarrow> Inl e
         | Inr response \<Rightarrow>
             (case getReadableErrorMessage error of
                Inl e \<Rightarrow> Inl e
              | Inr message \<Rightarrow>
                  Inr (new_ImgfansError (message_string pf message)
                        (opt_prop response (js ''status''))
                        (opt_prop response (js ''data''))
                        error)))
      else
        (case get_prop error (js ''message'') of
           Inl e \<Rightarrow> Inl e
         | Inr m \<Rightarrow>
             Inr (new_ImgfansError
                   (message_string pf (js_or m (JStr (js ''An unexpected error occurred''))))
                   JUndefined JUndefined error)))"

text \<open>The value thrown by \<open>throw ImgfansError.fromError(error)\<close>.\<close>

definition throw_fromError :: "platform \<Rightarrow> jsval \<Rightarrow> jsval" where
  "throw_fromError pf error = (case fromError pf error of Inl t \<Rightarrow> t | Inr e \<Rightarrow> e)"

section \<open>Construction\<close>

record ImgfansConfig =
  token :: "jsstring option"
  baseURL :: "jsstring option"

definition DEFAULT_BASE_URL :: jsstring where
  "DEFAULT_BASE_URL = js ''https://imgfans.com/api/v1''"

text \<open>An optional string parameter: \<open>undefined\<close> and the empty string are falsy.\<close>

fun given :: "jsstring option \<Rightarrow> bool" where
  "given None = False"
| "given (Some x) = (x \<noteq> [])"

text \<open>\<open>x || d\<close> for an optional string \<open>x\<close>.\<close>

fun or_default :: "jsstring option \<Rightarrow> jsstring \<Rightarrow> jsstring" where
  "or_default None d = d"
| "or_default (Some x) d = (if x = [] then d else x)"

text \<open>
  The constructor, with the calls it makes outside the process: \<open>axios.create\<close> and
  \<open>interceptors.response.use\<close> build the client and send nothing.
\<close>

definition ImgfansClient :: "ImgfansConfig \<Rightarrow> (jsval + client) \<times> effect list" where
  "ImgfansClient config =
     (if \<not> given (token config) then
        (Inl (ImgfansError1 (js ''API token is required for initialization'')), [])
      else
        (Inr \<lparr>client_baseURL = or_default (baseURL config) DEFAULT_BASE_URL,
              client_headers =
                [(js ''Authorization'', js ''Bearer '' @ or_default (token config) []),
                 (js ''Accept'', js ''application/json'')]\<rparr>, []))"

section \<open>Base64\<close>

text \<open>
  Modelled from the spec: \<open>Buffer.from(payload, 'base64')\<close> and \<open>buffer.toString('base64')\<close>
  are Node's, not this repository's. The spec says "decode base64 payload to bytes" and
  "re-encoding the payload to base64". The encoder is RFC 4648 with padding. The decoder
  is lenient in the manner of Node's: it reads the low byte of each code unit, takes the
  standard and the URL-safe alphabet, skips every other character and stops at the first
  \<open>=\<close>. The program itself is modelled over the platform's decoder, whatever it is.
\<close>

definition base64_alphabet :: jsstring where
  "base64_alphabet = js ''ABCDEFGHIJKLMNOPQRSTUVWXYZabcdefghijklmnopqrstuvwxyz0123456789+/''"

definition base64_char :: "nat \<Rightarrow> jschar" where
  "base64_char n = base64_alphabet ! (n mod 64)"

fun base64_encode :: "byte list \<Rightarrow> jsstring" where
  "base64_encode (a # b # c # rest) =
     [base64_char (unat a div 4),
      base64_char ((unat a mod 4) * 16 + unat b div 16),
      base64_char ((unat b mod 16) * 4 + unat c div 64),
      base64_char (unat c mod 64)] @ base64_encode rest"
| "base64_encode [a, b] =
     [base64_char (unat a div 4),
      base64_char ((unat a mod 4) * 16 + unat b div 16),
      base64_char ((unat b mod 16) * 4),
      0x3D]"
| "base64_encode [a] =
     [base64_char (unat a div 4),
      base64_char ((unat a mod 4) * 16),
      0x3D, 0x3D]"
| "base64_encode [] = []"

definition unbase64 :: "jschar \<Rightarrow> nat option" where
  "unbase64 c =
     (let n = unat c mod 256 in
      if 65 \<le> n \<and> n \<le> 90 then Some (n - 65)
      else if 97 \<le> n \<and> n \<le> 122 then Some (n - 71)
      else if 48 \<le> n \<and> n \<le> 57 then Some (n + 4)
      else if n = 43 \<or> n = 45 then Some 62
      else if n = 47 \<or> n = 95 then Some 63
      else None)"

fun sextets :: "jsstring \<Rightarrow> nat list" where
  "sextets [] = []"
| "sextets (c # cs) =
     (if unat c mod 256 = 61 then []
      else case unbase64 c of Some v \<Rightarrow> v # sextets cs | None \<Rightarrow> sextets cs)"

fun sextet_bytes :: "nat list \<Rightarrow> byte list" where
  "sextet_bytes (a # b # c # d # rest) =
     [of_nat (a * 4 + b div 16), of_nat ((b mod 16) * 16 + c div 4), of_nat ((c mod 4) * 64 + d)]
     @ sextet_bytes rest"
| "sextet_bytes [a, b, c] = [of_nat (a * 4 + b div 16), of_nat ((b mod 16) * 16 + c div 4)]"
| "sextet_bytes [a, b] = [of_nat (a * 4 + b div 16)]"
| "sextet_bytes [a] = []"
| "sextet_bytes [] = []"

definition base64_decode :: "jsstring \<Rightarrow> byte list" where
  "base64_decode s = sextet_bytes (sextets s)"

section \<open>Input normalisation\<close>

text \<open>\<open>.\<close> of a regular expression without flags: any code unit but a line terminator.\<close>

definition line_terminator :: "jschar \<Rightarrow> bool" where
  "line_terminator c = (c = 0x0A \<or> c = 0x0D \<or> c = 0x2028 \<or> c = 0x2029)"

text \<open>\<open>;base64,(.+)$\<close> at the current position: the second group, which runs to the end.\<close>

definition match_tail :: "jsstring \<Rightarrow> jsstring option" where
  "match_tail r =
     (if prefix (js '';base64,'') r \<and> drop 8 r \<noteq> [] \<and> list_all (\<lambda>c. \<not> line_terminator c) (drop 8 r)
      then Some (drop 8 r) else None)"

text \<open>
  \<open>(.+);base64,(.+)$\<close> by backtracking: the first group has consumed \<open>acc\<close>; it is greedy,
  so the longer first group is tried before the group is closed at this position.
\<close>

fun match_groups :: "jsstring \<Rightarrow> jsstring \<Rightarrow> (jsstring \<times> jsstring) option" where
  "match_groups acc [] = None"
| "match_groups acc (c # cs) =
     (case (if line_terminator c then None else match_groups (acc @ [c]) cs) of
        Some r \<Rightarrow> Some r
      | None \<Rightarrow>
          if acc = [] then None
          else (case match_tail (c # cs) of Some p \<Rightarrow> Some (acc, p) | None \<Rightarrow> None))"

text \<open>\<open>input.match(/^data:(.+);base64,(.+)$/)\<close>: groups 1 and 2, or \<open>None\<close> for \<open>null\<close>.\<close>

definition match_data_uri :: "jsstring \<Rightarrow> (jsstring \<times> jsstring) option" where
  "match_data_uri input =
     (if prefix (js ''data:'') input then match_groups [] (drop 5 input) else None)"

datatype UploadInput =
    StringInput jsstring
  | BufferInput "byte list"
  | BlobInput nat
  | ReadableInput nat
  | OtherInput jsval

text \<open>\<open>customFilename || basename(new URL(input).pathname)\<close>: the URL is parsed only when
  the custom name is falsy.\<close>

definition url_filename :: "platform \<Rightarrow> jsstring \<Rightarrow> jsstring option \<Rightarrow> jsval + jsstring" where
  "url_filename pf input customFilename =
     (if given customFilename then Inr (or_default customFilename [])
      else (case URL_pathname pf input of
              Inl e \<Rightarrow> Inl e
            | Inr pathname \<Rightarrow> Inr (basename pf pathname)))"

text \<open>The string branches after the URL test: lines 147 to 167.\<close>

definition preprocess_non_url ::
  "platform \<Rightarrow> jsstring \<Rightarrow> jsstring option \<Rightarrow> (jsval + byte_source \<times> jsstring) \<times> effect list" where
  "preprocess_non_url pf input customFilename =
     (case (if prefix (js ''data:image/'') input then match_data_uri input else None) of
        Some (mime, payload) \<Rightarrow>
          (Inr (BufferSource (Buffer_from_base64 pf payload),
                or_default customFilename (js ''image.png'')), [])
      | None \<Rightarrow>
          if existsSync pf input then
            (Inr (FileStream input, or_default customFilename (basename pf input)),
             [FsExists input, FsCreateReadStream input])
          else
            (Inl (ImgfansError1 (js ''Invalid input: must be a valid URL, file path, or base64 string'')),
             [FsExists input]))"

text \<open>The body of the \<open>try\<close> block of \<open>preprocessInput\<close>.\<close>

fun preprocess_try ::
  "platform \<Rightarrow> UploadInput \<Rightarrow> jsstring option \<Rightarrow> (jsval + byte_source \<times> jsstring) \<times> effect list" where
  "preprocess_try pf (StringInput input) customFilename =
     (if prefix (js ''http://'') input \<or> prefix (js ''https://'') input then
        (case axios_get pf input of
           Inl e \<Rightarrow> (Inl e, [HttpGet input])
         | Inr buffer \<Rightarrow>
             (case url_filename pf input customFilename of
                Inl e \<Rightarrow> (Inl e, [HttpGet input])
              | Inr name \<Rightarrow> (Inr (BufferSource buffer, name), [HttpGet input])))
      else preprocess_non_url pf input customFilename)"
| "preprocess_try pf (BufferInput b) customFilename =
     (Inr (BufferSource b, or_default customFilename (js ''image.png'')), [])"
| "preprocess_try pf (BlobInput b) customFilename =
     (Inr (BlobSource b, or_default customFilename (js ''image.png'')), [])"
| "preprocess_try pf (ReadableInput r) customFilename =
     (Inr (ReadableSource r, or_default customFilename (js ''image.png'')), [])"
| "preprocess_try pf (OtherInput v) customFilename =
     (Inl (ImgfansError1 (js ''Unsupported input type'')), [])"

text \<open>\<open>preprocessInput\<close>: whatever the body throws is rethrown through \<open>fromError\<close>.\<close>

definition preprocessInput ::
  "platform \<Rightarrow> UploadInput \<Rightarrow> jsstring option \<Rightarrow> (jsval + byte_source \<times> jsstring) \<times> effect list" where
  "preprocessInput pf input customFilename =
     (case preprocess_try pf input customFilename of
        (Inl e, effects) \<Rightarrow> (Inl (throw_fromError pf e), effects)
      | (Inr r, effects) \<Rightarrow> (Inr r, effects))"

section \<open>Upload\<close>

text \<open>
  \<open>formData.append('file', file, filename)\<close>: the form-data package takes a Buffer or a
  stream; a Blob is neither, and appending it throws a TypeError when the package calls
  \<open>source.on\<close>.
\<close>

fun formData_append :: "byte_source \<Rightarrow> jsval + unit" where
  "formData_append (BlobSource b) = Inl (TypeError (js ''source.on is not a function''))"
| "formData_append source = Inr ()"

text \<open>
  \<open>performUpload\<close>: the form is built before the \<open>try\<close>, so what that throws is not
  rethrown here. A rejected request passes through the response interceptor of the
  constructor (\<open>throw ImgfansError.fromError(error)\<close>) and then through the \<open>catch\<close> of
  \<open>performUpload\<close>, which applies \<open>fromError\<close> again.
\<close>

definition performUpload ::
  "platform \<Rightarrow> client \<Rightarrow> byte_source \<Rightarrow> jsstring \<Rightarrow> (jsval + jsval) \<times> effect list" where
  "performUpload pf cl file filename =
     (case formData_append file of
        Inl e \<Rightarrow> (Inl e, [])
      | Inr _ \<Rightarrow>
     (case http_post pf cl file filename of
        Inl e \<Rightarrow> (Inl (throw_fromError pf (throw_fromError pf e)), [HttpPost cl file filename])
      | Inr response \<Rightarrow>
          (case get_prop response (js ''data'') of
             Inl e \<Rightarrow> (Inl (throw_fromError pf e), [HttpPost cl file filename])
           | Inr d \<Rightarrow> (Inr d, [HttpPost cl file filename]))))"

definition upload ::
  "platform \<Rightarrow> client \<Rightarrow> UploadInput \<Rightarrow> jsstring option \<Rightarrow> (jsval + jsval) \<times> effect list" where
  "upload pf cl input filename =
     (case preprocessInput pf input filename of
        (Inl e, effects) \<Rightarrow> (Inl (throw_fromError pf e), effects)
      | (Inr (processedFile, detectedFilename), effects) \<Rightarrow>
          (case performUpload pf cl processedFile detectedFilename of
             (Inl e, effects') \<Rightarrow> (Inl (throw_fromError pf e), effects @ effects')
           | (Inr r, effects') \<Rightarrow> (Inr r, effects @ effects')))"

section \<open>An example platform\<close>

text \<open>The part of a path after its last slash: \<open>path.basename\<close> on a path that does not end in one.\<close>

definition after_last_slash :: "jsstring \<Rightarrow> jsstring" where
  "after_last_slash p = rev (takeWhile (\<lambda>c. c \<noteq> 0x2F) (rev p))"

text \<open>The error axios rejects with when the server answers with a status outside 2xx.\<close>

definition axios_status_error :: "rat \<Rightarrow> jsstring \<Rightarrow> jsval \<Rightarrow> jsval" where
  "axios_status_error status message data = JObj
     [(js ''name'', JStr (js ''AxiosError'')),
      (js ''message'', JStr message),
      (js ''code'', JStr (js ''ERR_BAD_REQUEST'')),
      (js ''isAxiosError'', JBool True),
      (js ''response'', JObj [(js ''status'', JNum (Fin status)), (js ''data'', data)])]"

definition too_large_error :: jsval where
  "too_large_error = axios_status_error 413 (js ''Request failed with status code 413'')
     (JObj [(js ''message'', JStr (js ''Payload Too Large''))])"

definition not_found_error :: jsval where
  "not_found_error = axios_status_error 404 (js ''Request failed with status code 404'') (JBytes [])"

text \<open>
  A machine with two files, one of them named like a data URI, one reachable URL, and a
  server that answers every upload with status 413.
\<close>

definition example_platform :: platform where
  "example_platform =
     \<lparr>ToString = (\<lambda>v. js ''[object Object]''),
      existsSync = (\<lambda>p. p = js ''/tmp/cat.png'' \<or> p = js ''data:image/png;base64,QUJD''),
      basename = after_last_slash,
      URL_pathname = (\<lambda>u. if u = js ''https://example.com/a/b.jpg'' then Inr (js ''/a/b.jpg'')
                            else Inl (TypeError (js ''Invalid URL''))),
      Buffer_from_base64 = base64_decode,
      axios_get = (\<lambda>u. if u = js ''https://example.com/a/b.jpg'' then Inr [0xFF, 0xD8]
                         else Inl not_found_error),
      http_post = (\<lambda>cl file name. Inl too_large_error)\<rparr>"

definition example_client :: client where
  "example_client =
     \<lparr>client_baseURL = DEFAULT_BASE_URL,
      client_headers = [(js ''Authorization'', js ''Bearer test-token''),
                        (js ''Accept'', js ''application/json'')]\<rparr>"

text \<open>A response as the server sends it.\<close>

definition example_response :: jsval where
  "example_response = JObj
     [(js ''success'', JBool True),
      (js ''file'', JObj
        [(js ''id'', JStr (js ''abc'')),
         (js ''references'', JObj
           [(js ''direct_link'', JObj [(js ''label'', JStr (js ''Direct'')), (js ''code'', JStr (js ''https://i.example/abc.png''))]),
            (js ''download_link'', JObj [(js ''label'', JStr (js ''Download'')), (js ''code'', JStr (js ''https://i.example/d/abc.png''))]),
            (js ''bbcode'', JObj [(js ''label'', JStr (js ''BBCode'')), (js ''code'', JStr (js ''[img]https://i.example/abc.png[/img]''))]),
            (js ''html'', JObj [(js ''label'', JStr (js ''HTML'')), (js ''code'', JStr (js ''<img src=https://i.example/abc.png>''))]),
            (js ''markdown'', JObj [(js ''label'', JStr (js ''Markdown'')), (js ''code'', JStr (js ''![](https://i.example/abc.png)''))])])])]"

section \<open>Literals\<close>

lemma of_char_nat_less: "(of_char c :: nat) < 256"
  using of_char_mod_256 [of c, where ?'a = nat]
  by (metis mod_less_divisor zero_less_numeral)

lemma unat_of_char16: "unat (of_char c :: jschar) = of_char c"
proof -
  have "(of_char c :: nat) < 65536"
    using of_char_nat_less [of c] by linarith
  then have "unat (of_nat (of_char c) :: jschar) = of_char c"
    by (simp add: unat_of_nat)
  then show ?thesis by (simp only: of_nat_of_char)
qed

lemma of_char16_eq_iff [simp]: "(of_char c :: jschar) = of_char d \<longleftrightarrow> c = d"
proof
  assume "(of_char c :: jschar) = of_char d"
  then have "unat (of_char c :: jschar) = unat (of_char d :: jschar)" by simp
  then have "(of_char c :: nat) = of_char d" by (simp only: unat_of_char16)
  then show "c = d" by simp
qed simp

lemma inj_of_char16: "inj (of_char :: char \<Rightarrow> jschar)"
  by (rule injI) simp

lemma js_eq_iff [simp]: "js a = js b \<longleftrightarrow> a = b"
  unfolding js_def by (simp add: inj_map_eq_map [OF inj_of_char16])

lemma js_Nil [simp]: "js [] = []"
  by (simp add: js_def)

lemma js_eq_Nil [simp]: "js a = [] \<longleftrightarrow> a = []"
  by (simp add: js_def)

lemma Nil_eq_js [simp]: "[] = js a \<longleftrightarrow> a = []"
  by (simp add: js_def)

section \<open>Response accessors: proofs\<close>

lemma nullish_not_truthy: "nullish v \<Longrightarrow> \<not> truthy v"
  by (auto simp: nullish_def)

lemma own_nullish: "nullish v \<Longrightarrow> own v p = JUndefined"
  by (auto simp: nullish_def)

lemma opt_prop_own: "opt_prop v p = own v p"
  by (auto simp: opt_prop_def nullish_def)

lemma validateResponse_eq:
  "validateResponse response =
     (if truthy (references_of response) then Inr ()
      else Inl (ImgfansError1 (js ''Invalid response format from server'')))"
  by (simp add: validateResponse_def opt_prop_own references_of_def)

lemma truthy_references_file:
  assumes "truthy (references_of response)"
  shows "file_references response = Inr (references_of response)"
proof -
  have 1: "\<not> nullish (own response (js ''file''))"
  proof
    assume "nullish (own response (js ''file''))"
    then have "references_of response = JUndefined"
      unfolding references_of_def by (rule own_nullish)
    with assms show False by simp
  qed
  have 2: "\<not> nullish response"
  proof
    assume "nullish response"
    then have "own response (js ''file'') = JUndefined" by (rule own_nullish)
    with 1 show False by (simp add: nullish_def)
  qed
  show ?thesis
    using 1 2 by (simp add: file_references_def get_prop_def references_of_def)
qed

lemma read_reference_invalid:
  "\<not> truthy (references_of response) \<Longrightarrow>
   read_reference response kind = Inl (ImgfansError1 (js ''Invalid response format from server''))"
  by (simp add: read_reference_def validateResponse_eq)

lemma read_reference_valid:
  "truthy (references_of response) \<Longrightarrow>
   read_reference response kind = ref_code (references_of response) kind"
  by (simp add: read_reference_def validateResponse_eq truthy_references_file)

lemma ref_code_present:
  "truthy refs \<Longrightarrow> \<not> nullish (own refs kind) \<Longrightarrow>
   ref_code refs kind = Inr (own (own refs kind) (js ''code''))"
  by (auto simp: ref_code_def get_prop_def dest: nullish_not_truthy)

lemma ref_code_absent:
  "truthy refs \<Longrightarrow> nullish (own refs kind) \<Longrightarrow>
   ref_code refs kind = Inl (cannot_read (own refs kind) (js ''code''))"
  by (auto simp: ref_code_def get_prop_def dest: nullish_not_truthy)

lemma ref_code_cases:
  "truthy refs \<Longrightarrow>
   ref_code refs kind =
     (if nullish (own refs kind) then Inl (cannot_read (own refs kind) (js ''code''))
      else Inr (own (own refs kind) (js ''code'')))"
  by (simp add: ref_code_present ref_code_absent)

lemma js_append: "js (a @ b) = js a @ js b"
  by (simp add: js_def)

lemma cannot_read_not_ImgfansError: "\<not> instanceof_ImgfansError (cannot_read v p)"
  by (simp add: instanceof_ImgfansError_def cannot_read_def TypeError_def)

text \<open>
  C3, as the code has it: when \<open>file.references\<close> is present and truthy (an object, as
  the server sends it) and a reference kind is absent from it, every accessor that reads
  that kind fails, and what it throws is the TypeError of reading \<open>code\<close> from
  \<open>undefined\<close>, which is not an ImgfansError. \<open>getAllReferences\<close> reads all five kinds and
  fails at the first absent one. When \<open>file.references\<close> is falsy (absent, \<open>null\<close>, or
  present as the empty string, zero, \<open>NaN\<close> or \<open>false\<close>), every accessor throws the
  ImgfansError "Invalid response format from server", whatever kinds are absent.
\<close>

theorem absent_kind_TypeError:
  "(truthy (references_of response) \<longrightarrow>
      (nullish (own (references_of response) (js ''direct_link'')) \<longrightarrow>
            getDirectLink response
              = Inl (cannot_read (own (references_of response) (js ''direct_link'')) (js ''code'')))
       \<and> (nullish (own (references_of response) (js ''markdown'')) \<longrightarrow>
            getMarkdownCode response
              = Inl (cannot_read (own (references_of response) (js ''markdown'')) (js ''code'')))
       \<and> (nullish (own (references_of response) (js ''html'')) \<longrightarrow>
            getHtmlCode response
              = Inl (cannot_read (own (references_of response) (js ''html'')) (js ''code'')))
       \<and> ((\<exists>kind \<in> set reference_kinds. nullish (own (references_of response) kind)) \<longrightarrow>
            (\<exists>kind \<in> set reference_kinds.
               getAllReferences response
                 = Inl (cannot_read (own (references_of response) kind) (js ''code'')))))
   \<and> (\<not> truthy (references_of response) \<longrightarrow>
         getDirectLink response = Inl (ImgfansError1 (js ''Invalid response format from server''))
       \<and> getMarkdownCode response = Inl (ImgfansError1 (js ''Invalid response format from server''))
       \<and> getHtmlCode response = Inl (ImgfansError1 (js ''Invalid response format from server''))
       \<and> getAllReferences response = Inl (ImgfansError1 (js ''Invalid response format from server'')))
   \<and> (\<forall>v p. \<not> instanceof_ImgfansError (cannot_read v p))
   \<and> instanceof_ImgfansError (ImgfansError1 (js ''Invalid response format from server''))"
proof -
  let ?refs = "references_of response"
  have all: "(\<exists>kind \<in> set reference_kinds. nullish (own ?refs kind)) \<longrightarrow>
            (\<exists>kind \<in> set reference_kinds.
               getAllReferences response = Inl (cannot_read (own ?refs kind) (js ''code'')))"
    if "truthy ?refs"
    using that
    by (simp add: getAllReferences_def validateResponse_eq truthy_references_file
        ref_code_cases reference_kinds_def)
  have single: "nullish (own ?refs kind) \<longrightarrow>
        read_reference response kind = Inl (cannot_read (own ?refs kind) (js ''code''))"
    if "truthy ?refs" for kind
    using that by (simp add: read_reference_valid ref_code_absent)
  have falsy: "read_reference response kind
                 = Inl (ImgfansError1 (js ''Invalid response format from server''))
             \<and> getAllReferences response
                 = Inl (ImgfansError1 (js ''Invalid response format from server''))"
    if "\<not> truthy ?refs" for kind
    using that by (simp add: read_reference_invalid getAllReferences_def validateResponse_eq)
  have inst: "instanceof_ImgfansError (ImgfansError1 (js ''Invalid response format from server''))"
    by (simp add: instanceof_ImgfansError_def ImgfansError1_def new_ImgfansError_def)
  show ?thesis
    unfolding getDirectLink_def getMarkdownCode_def getHtmlCode_def
    using all single falsy inst cannot_read_not_ImgfansError by blast
qed

theorem absent_kind_TypeError_witness:
  "truthy (references_of (JObj [(js ''file'', JObj [(js ''references'', JObj [])])]))
   \<and> getDirectLink (JObj [(js ''file'', JObj [(js ''references'', JObj [])])])
       = Inl (cannot_read JUndefined (js ''code''))
   \<and> getMarkdownCode (JObj [(js ''file'', JObj [(js ''references'', JObj [])])])
       = Inl (cannot_read JUndefined (js ''code''))
   \<and> getHtmlCode (JObj [(js ''file'', JObj [(js ''references'', JObj [])])])
       = Inl (cannot_read JUndefined (js ''code''))
   \<and> getAllReferences (JObj [(js ''file'', JObj [(js ''references'', JObj [])])])
       = Inl (cannot_read JUndefined (js ''code''))
   \<and> \<not> truthy (references_of (JObj [(js ''file'', JObj [(js ''references'', JStr [])])]))
   \<and> own (references_of (JObj [(js ''file'', JObj [(js ''references'', JStr [])])])) (js ''direct_link'')
       = JUndefined
   \<and> getDirectLink (JObj [(js ''file'', JObj [(js ''references'', JStr [])])])
       = Inl (ImgfansError1 (js ''Invalid response format from server''))
   \<and> getAllReferences (JObj [(js ''file'', JObj [(js ''references'', JStr [])])])
       = Inl (ImgfansError1 (js ''Invalid response format from server''))"
proof -
  let ?r = "JObj [(js ''file'', JObj [(js ''references'', JObj [])])]"
  let ?e = "JObj [(js ''file'', JObj [(js ''references'', JStr [])])]"
  have r: "references_of ?r = JObj []" by (simp add: references_of_def)
  have e: "references_of ?e = JStr []" by (simp add: references_of_def)
  show ?thesis
    using absent_kind_TypeError [of ?r] absent_kind_TypeError [of ?e] unfolding r e
    by (auto simp add: nullish_def reference_kinds_def)
qed

theorem absent_kind_counterexample:
  "references_of (JObj [(js ''file'', JObj [(js ''references'', JObj [])])]) = JObj []
   \<and> own (JObj []) (js ''direct_link'') = JUndefined
   \<and> getDirectLink (JObj [(js ''file'', JObj [(js ''references'', JObj [])])])
       = Inl (TypeError (js ''Cannot read properties of undefined (reading '' @ [0x27] @ js ''code'' @ [0x27] @ js '')''))
   \<and> \<not> instanceof_ImgfansError
         (TypeError (js ''Cannot read properties of undefined (reading '' @ [0x27] @ js ''code'' @ [0x27] @ js '')''))"
  by (simp add: references_of_def getDirectLink_def read_reference_def validateResponse_def
      opt_prop_def nullish_def file_references_def get_prop_def ref_code_def cannot_read_def
      instanceof_ImgfansError_def TypeError_def js_def)

text \<open>
  C5: a response without \<open>file.references\<close> (the response, its \<open>file\<close> or its
  \<open>references\<close> is \<open>undefined\<close> or \<open>null\<close>) makes each of the four accessors throw the
  ImgfansError "Invalid response format from server", and nothing else.
\<close>

theorem accessors_reject_missing_references:
  assumes "nullish response \<or> nullish (own response (js ''file''))
           \<or> nullish (own (own response (js ''file'')) (js ''references''))"
  shows "getDirectLink response = Inl (ImgfansError1 (js ''Invalid response format from server''))
       \<and> getMarkdownCode response = Inl (ImgfansError1 (js ''Invalid response format from server''))
       \<and> getHtmlCode response = Inl (ImgfansError1 (js ''Invalid response format from server''))
       \<and> getAllReferences response = Inl (ImgfansError1 (js ''Invalid response format from server''))"
proof -
  have "nullish (references_of response)"
    using assms by (auto simp: references_of_def dest: own_nullish simp: nullish_def)
  then have "\<not> truthy (references_of response)" by (rule nullish_not_truthy)
  then show ?thesis
    by (simp add: getDirectLink_def getMarkdownCode_def getHtmlCode_def getAllReferences_def
        read_reference_invalid validateResponse_eq)
qed

theorem accessors_reject_missing_references_witness:
  "nullish (own (JObj [(js ''success'', JBool True)]) (js ''file''))
   \<and> getDirectLink (JObj [(js ''success'', JBool True)])
       = Inl (ImgfansError1 (js ''Invalid response format from server''))
   \<and> getMarkdownCode (JObj [(js ''success'', JBool True)])
       = Inl (ImgfansError1 (js ''Invalid response format from server''))
   \<and> getHtmlCode (JObj [(js ''success'', JBool True)])
       = Inl (ImgfansError1 (js ''Invalid response format from server''))
   \<and> getAllReferences (JObj [(js ''success'', JBool True)])
       = Inl (ImgfansError1 (js ''Invalid response format from server''))"
proof -
  have h: "nullish (own (JObj [(js ''success'', JBool True)]) (js ''file''))"
    by (simp add: nullish_def)
  then show ?thesis
    using accessors_reject_missing_references [of "JObj [(js ''success'', JBool True)]"] by simp
qed

text \<open>
  C4: on a response whose \<open>file.references\<close> is present and has all five kinds,
  \<open>getAllReferences\<close> returns the object with the keys directLink, downloadLink, bbcode,
  html and markdown, in this order and no other key, each holding the \<open>code\<close> of
  direct_link, download_link, bbcode, html and markdown.
\<close>

theorem getAllReferences_well_formed:
  assumes "truthy (references_of response)"
    and "\<forall>kind \<in> set reference_kinds. \<not> nullish (own (references_of response) kind)"
  shows "getAllReferences response = Inr (JObj
          [(js ''directLink'', own (own (references_of response) (js ''direct_link'')) (js ''code'')),
           (js ''downloadLink'', own (own (references_of response) (js ''download_link'')) (js ''code'')),
           (js ''bbcode'', own (own (references_of response) (js ''bbcode'')) (js ''code'')),
           (js ''html'', own (own (references_of response) (js ''html'')) (js ''code'')),
           (js ''markdown'', own (own (references_of response) (js ''markdown'')) (js ''code''))])"
  using assms
  by (simp add: getAllReferences_def validateResponse_eq truthy_references_file
      ref_code_present reference_kinds_def)

lemma example_references:
  "references_of example_response = JObj
     [(js ''direct_link'', JObj [(js ''label'', JStr (js ''Direct'')), (js ''code'', JStr (js ''https://i.example/abc.png''))]),
      (js ''download_link'', JObj [(js ''label'', JStr (js ''Download'')), (js ''code'', JStr (js ''https://i.example/d/abc.png''))]),
      (js ''bbcode'', JObj [(js ''label'', JStr (js ''BBCode'')), (js ''code'', JStr (js ''[img]https://i.example/abc.png[/img]''))]),
      (js ''html'', JObj [(js ''label'', JStr (js ''HTML'')), (js ''code'', JStr (js ''<img src=https://i.example/abc.png>''))]),
      (js ''markdown'', JObj [(js ''label'', JStr (js ''Markdown'')), (js ''code'', JStr (js ''![](https://i.example/abc.png)''))])]"
  by (simp add: references_of_def example_response_def)

theorem getAllReferences_well_formed_witness:
  "truthy (references_of example_response)
   \<and> list_all (\<lambda>kind. \<not> nullish (own (references_of example_response) kind)) reference_kinds
   \<and> getAllReferences example_response = Inr (JObj
        [(js ''directLink'', JStr (js ''https://i.example/abc.png'')),
         (js ''downloadLink'', JStr (js ''https://i.example/d/abc.png'')),
         (js ''bbcode'', JStr (js ''[img]https://i.example/abc.png[/img]'')),
         (js ''html'', JStr (js ''<img src=https://i.example/abc.png>'')),
         (js ''markdown'', JStr (js ''![](https://i.example/abc.png)''))])"
proof -
  have t: "truthy (references_of example_response)"
    by (simp add: example_references)
  have k: "\<forall>kind \<in> set reference_kinds. \<not> nullish (own (references_of example_response) kind)"
    by (simp add: example_references reference_kinds_def nullish_def)
  show ?thesis
    using t k getAllReferences_well_formed [OF t k]
    by (simp add: example_references list_all_iff)
qed

section \<open>Construction: proofs\<close>

text \<open>
  C8: a configuration whose token is missing or empty makes the constructor throw the
  ImgfansError "API token is required for initialization" with no call made outside the
  process; with a non-empty token the constructor returns a client, again with no call.
\<close>

theorem constructor_requires_token:
  "(token config = None \<or> token config = Some [] \<longrightarrow>
      ImgfansClient config
        = (Inl (ImgfansError1 (js ''API token is required for initialization'')), []))
   \<and> (\<forall>t. token config = Some t \<and> t \<noteq> [] \<longrightarrow>
        ImgfansClient config =
          (Inr \<lparr>client_baseURL = or_default (baseURL config) DEFAULT_BASE_URL,
                client_headers = [(js ''Authorization'', js ''Bearer '' @ t),
                                  (js ''Accept'', js ''application/json'')]\<rparr>, []))"
  by (auto simp: ImgfansClient_def)

theorem constructor_requires_token_witness:
  "ImgfansClient \<lparr>token = None, baseURL = None\<rparr>
     = (Inl (ImgfansError1 (js ''API token is required for initialization'')), [])
   \<and> ImgfansClient \<lparr>token = Some [], baseURL = None\<rparr>
     = (Inl (ImgfansError1 (js ''API token is required for initialization'')), [])
   \<and> ImgfansClient \<lparr>token = Some (js ''test-token''), baseURL = None\<rparr> = (Inr example_client, [])"
  using constructor_requires_token [of "\<lparr>token = None, baseURL = None\<rparr>"]
    constructor_requires_token [of "\<lparr>token = Some [], baseURL = None\<rparr>"]
    constructor_requires_token [of "\<lparr>token = Some (js ''test-token''), baseURL = None\<rparr>"]
  by (simp add: example_client_def js_def)

section \<open>Error translation: proofs\<close>

lemma own_new_ImgfansError:
  "own (new_ImgfansError m s r c) (js ''name'') = JStr (js ''ImgfansError'')"
  "own (new_ImgfansError m s r c) (js ''message'') = JStr m"
  "own (new_ImgfansError m s r c) (js ''statusCode'') = s"
  "own (new_ImgfansError m s r c) (js ''response'') = r"
  "own (new_ImgfansError m s r c) (js ''cause'') = c"
  "own (new_ImgfansError m s r c) (js ''isAxiosError'') = JUndefined"
  by (simp_all add: new_ImgfansError_def)

lemma new_ImgfansError_not_axios: "\<not> isAxiosError (new_ImgfansError m s r c)"
  by (simp add: isAxiosError_def own_new_ImgfansError)

lemma new_ImgfansError_not_nullish: "\<not> nullish (new_ImgfansError m s r c)"
  by (simp add: nullish_def new_ImgfansError_def)

text \<open>An ImgfansError that passes through \<open>fromError\<close> again keeps its message, when
  it has one, and becomes the cause of a new error without status code and payload.\<close>

lemma fromError_ImgfansError:
  "fromError pf (new_ImgfansError m s r c) =
     Inr (new_ImgfansError (if m = [] then js ''An unexpected error occurred'' else m)
           JUndefined JUndefined (new_ImgfansError m s r c))"
  by (simp add: fromError_def new_ImgfansError_not_axios get_prop_def new_ImgfansError_not_nullish
      own_new_ImgfansError js_or_def message_string_def)

lemma throw_fromError_ImgfansError:
  "throw_fromError pf (new_ImgfansError m s r c) =
     new_ImgfansError (if m = [] then js ''An unexpected error occurred'' else m)
       JUndefined JUndefined (new_ImgfansError m s r c)"
  by (simp add: throw_fromError_def fromError_ImgfansError)

lemma throw_fromError_ImgfansError1:
  "m \<noteq> [] \<Longrightarrow>
   throw_fromError pf (ImgfansError1 m) = new_ImgfansError m JUndefined JUndefined (ImgfansError1 m)"
  by (simp add: throw_fromError_def ImgfansError1_def fromError_ImgfansError)

text \<open>What \<open>fromError\<close> makes of an axios error: the status code, the payload and the
  cause are those of the error.\<close>

lemma is_object_not_nullish: "is_object v \<Longrightarrow> \<not> nullish v"
  by (cases v) (simp_all add: nullish_def)

lemma fromError_axios:
  assumes "isAxiosError error"
  shows "\<exists>message. getReadableErrorMessage error = Inr message
          \<and> fromError pf error =
              Inr (new_ImgfansError (message_string pf message)
                    (opt_prop (own error (js ''response'')) (js ''status''))
                    (opt_prop (own error (js ''response'')) (js ''data''))
                    error)"
proof -
  have n: "\<not> nullish error"
    using assms by (simp add: isAxiosError_def is_object_not_nullish)
  obtain message where m: "getReadableErrorMessage error = Inr message"
    using n by (cases "getReadableErrorMessage error")
      (auto simp: getReadableErrorMessage_def get_prop_def split: if_splits)
  show ?thesis
    using assms n m by (simp add: fromError_def get_prop_def)
qed

lemma readable_message_status:
  assumes "\<not> nullish error"
  shows "opt_prop (own error (js ''response'')) (js ''status'') = JNum (Fin 413) \<Longrightarrow>
           getReadableErrorMessage error
             = Inr (JStr (js ''The image file is too large. Please try a smaller file.''))"
    and "opt_prop (own error (js ''response'')) (js ''status'') = JNum (Fin 415) \<Longrightarrow>
           getReadableErrorMessage error
             = Inr (JStr (js ''The file type is not supported. Please upload a valid image file.''))"
    and "opt_prop (own error (js ''response'')) (js ''status'') = JNum (Fin 401) \<Longrightarrow>
           getReadableErrorMessage error
             = Inr (JStr (js ''Invalid or missing API token. Please check your credentials.''))"
    and "opt_prop (own error (js ''response'')) (js ''status'') \<notin> {JNum (Fin 413), JNum (Fin 415), JNum (Fin 401)} \<Longrightarrow>
         own error (js ''code'') = JStr (js ''ECONNREFUSED'') \<Longrightarrow>
           getReadableErrorMessage error
             = Inr (JStr (js ''Unable to connect to Imgfans server. Please check your internet connection.''))"
    and "opt_prop (own error (js ''response'')) (js ''status'') \<notin> {JNum (Fin 413), JNum (Fin 415), JNum (Fin 401)} \<Longrightarrow>
         own error (js ''code'') \<noteq> JStr (js ''ECONNREFUSED'') \<Longrightarrow>
           getReadableErrorMessage error
             = Inr (js_or (opt_prop (opt_prop (own error (js ''response'')) (js ''data'')) (js ''message''))
                     (js_or (own error (js ''message'')) (JStr (js ''Upload failed for unknown reason''))))"
  using assms by (simp_all add: getReadableErrorMessage_def get_prop_def)

text \<open>Whatever is thrown twice through \<open>fromError\<close> has neither status code nor payload.\<close>

lemma fromError_not_nullish: "fromError pf e = Inl t \<Longrightarrow> t = cannot_read e (js ''message'')"
  by (auto simp: fromError_def get_prop_def getReadableErrorMessage_def isAxiosError_def
      dest: is_object_not_nullish split: if_splits sum.splits)

lemma throw_fromError_cases:
  "(\<exists>m s r c. throw_fromError pf e = new_ImgfansError m s r c)
   \<or> throw_fromError pf e = cannot_read e (js ''message'')"
proof (cases "fromError pf e")
  case (Inl t)
  then show ?thesis
    by (simp add: throw_fromError_def fromError_not_nullish)
next
  case (Inr x)
  then have "\<exists>m s r c. x = new_ImgfansError m s r c"
    by (auto simp: fromError_def split: if_splits sum.splits)
  with Inr show ?thesis
    by (auto simp: throw_fromError_def)
qed

lemma fromError_cannot_read:
  "fromError pf (cannot_read v p) =
     Inr (new_ImgfansError
           (js ''Cannot read properties of '' @ (if v = JNull then js ''null'' else js ''undefined'')
            @ js '' (reading '' @ [0x27] @ p @ [0x27] @ js '')'')
           JUndefined JUndefined (cannot_read v p))"
  by (simp add: fromError_def cannot_read_def TypeError_def isAxiosError_def get_prop_def
      nullish_def js_or_def message_string_def)

lemma rethrown_status_undefined:
  "own (throw_fromError pf (throw_fromError pf e)) (js ''statusCode'') = JUndefined
   \<and> own (throw_fromError pf (throw_fromError pf e)) (js ''response'') = JUndefined"
  using throw_fromError_cases [of pf e]
  by (auto simp: throw_fromError_def fromError_ImgfansError fromError_cannot_read own_new_ImgfansError)

lemma performUpload_rejected:
  assumes "http_post pf cl file filename = Inl e" and "formData_append file = Inr ()"
  shows "\<exists>E. fst (performUpload pf cl file filename) = Inl E
           \<and> own E (js ''statusCode'') = JUndefined \<and> own E (js ''response'') = JUndefined"
  using assms rethrown_status_undefined [of pf e]
  by (simp add: performUpload_def)

text \<open>
  C6 at a failing input: the server answers the upload of a one-byte buffer with status
  413 and the payload \<open>{message: "Payload Too Large"}\<close>. The error \<open>upload\<close> throws has the
  message for 413, but its status code and its payload are \<open>undefined\<close>: they are those of
  the cause of its cause, the error the response interceptor made.
\<close>

theorem upload_error_drops_status:
  "upload example_platform example_client (BufferInput [0x89]) None =
     (Inl (new_ImgfansError (js ''The image file is too large. Please try a smaller file.'')
            JUndefined JUndefined
          (new_ImgfansError (js ''The image file is too large. Please try a smaller file.'')
            JUndefined JUndefined
          (new_ImgfansError (js ''The image file is too large. Please try a smaller file.'')
            (JNum (Fin 413)) (JObj [(js ''message'', JStr (js ''Payload Too Large''))])
            too_large_error))),
      [HttpPost example_client (BufferSource [0x89]) (js ''image.png'')])"
proof -
  have ax: "isAxiosError too_large_error"
    by (simp add: too_large_error_def axios_status_error_def isAxiosError_def)
  have r: "own too_large_error (js ''response'')
            = JObj [(js ''status'', JNum (Fin 413)), (js ''data'', JObj [(js ''message'', JStr (js ''Payload Too Large''))])]"
    by (simp add: too_large_error_def axios_status_error_def)
  have m: "getReadableErrorMessage too_large_error
            = Inr (JStr (js ''The image file is too large. Please try a smaller file.''))"
    by (rule readable_message_status(1)) (simp_all add: r opt_prop_def nullish_def too_large_error_def axios_status_error_def)
  have 1: "throw_fromError example_platform too_large_error
            = new_ImgfansError (js ''The image file is too large. Please try a smaller file.'')
                (JNum (Fin 413)) (JObj [(js ''message'', JStr (js ''Payload Too Large''))]) too_large_error"
    using fromError_axios [OF ax, of example_platform]
    by (simp add: throw_fromError_def m r opt_prop_def nullish_def message_string_def)
  have hp: "http_post example_platform = (\<lambda>cl file name. Inl too_large_error)"
    by (simp add: example_platform_def)
  have p: "performUpload example_platform example_client (BufferSource [0x89]) (js ''image.png'')
            = (Inl (new_ImgfansError (js ''The image file is too large. Please try a smaller file.'')
                     JUndefined JUndefined
                   (new_ImgfansError (js ''The image file is too large. Please try a smaller file.'')
                     (JNum (Fin 413)) (JObj [(js ''message'', JStr (js ''Payload Too Large''))])
                     too_large_error)),
               [HttpPost example_client (BufferSource [0x89]) (js ''image.png'')])"
    by (simp add: performUpload_def hp 1 throw_fromError_ImgfansError)
  show ?thesis
    by (simp add: upload_def preprocessInput_def p throw_fromError_ImgfansError)
qed

section \<open>Input normalisation: proofs\<close>

subsection \<open>The regular expression\<close>

lemma prefix_base64_sep: "prefix (js '';base64,'') r \<Longrightarrow> r = js '';base64,'' @ drop 8 r"
  by (auto simp: prefix_def js_def)

lemma match_tail_Some:
  "match_tail r = Some p \<longleftrightarrow>
     r = js '';base64,'' @ p \<and> p \<noteq> [] \<and> list_all (\<lambda>c. \<not> line_terminator c) p"
proof
  assume "match_tail r = Some p"
  then have "prefix (js '';base64,'') r" and p: "p = drop 8 r" "p \<noteq> []"
    "list_all (\<lambda>c. \<not> line_terminator c) p"
    by (auto simp: match_tail_def split: if_splits)
  then show "r = js '';base64,'' @ p \<and> p \<noteq> [] \<and> list_all (\<lambda>c. \<not> line_terminator c) p"
    using prefix_base64_sep [of r] by simp
next
  assume "r = js '';base64,'' @ p \<and> p \<noteq> [] \<and> list_all (\<lambda>c. \<not> line_terminator c) p"
  then show "match_tail r = Some p"
    by (simp add: match_tail_def js_def)
qed

text \<open>What a match says about the input: it is the first group, the separator and the
  second group, both groups non-empty and free of line terminators.\<close>

lemma match_groups_sound:
  "match_groups acc r = Some (m, p) \<Longrightarrow>
   \<exists>m'. m = acc @ m' \<and> m \<noteq> [] \<and> r = m' @ js '';base64,'' @ p \<and> p \<noteq> []
        \<and> list_all (\<lambda>c. \<not> line_terminator c) m' \<and> list_all (\<lambda>c. \<not> line_terminator c) p"
proof (induction r arbitrary: acc)
  case Nil
  then show ?case by simp
next
  case (Cons c cs)
  show ?case
  proof (cases "if line_terminator c then None else match_groups (acc @ [c]) cs")
    case None
    with Cons.prems have acc: "acc \<noteq> []" and t: "match_tail (c # cs) = Some p" and m: "m = acc"
      by (auto split: if_splits option.splits)
    from t have "c # cs = js '';base64,'' @ p \<and> p \<noteq> [] \<and> list_all (\<lambda>c. \<not> line_terminator c) p"
      by (rule match_tail_Some [THEN iffD1])
    with acc m show ?thesis
      by (intro exI [of _ "[]"]) simp
  next
    case (Some res)
    with Cons.prems have res: "res = (m, p)" by simp
    from Some res have nt: "\<not> line_terminator c" and rec: "match_groups (acc @ [c]) cs = Some (m, p)"
      by (auto split: if_splits)
    from Cons.IH [OF rec] obtain m' where
      "m = (acc @ [c]) @ m'" "m \<noteq> []" "cs = m' @ js '';base64,'' @ p" "p \<noteq> []"
      "list_all (\<lambda>c. \<not> line_terminator c) m'" "list_all (\<lambda>c. \<not> line_terminator c) p"
      by blast
    with nt show ?thesis
      by (intro exI [of _ "c # m'"]) simp
  qed
qed

text \<open>Every input of that shape matches.\<close>

lemma sep_head: "js '';base64,'' @ p = of_char CHR '';'' # js ''base64,'' @ p"
  by (simp add: js_def)

lemma match_groups_complete:
  "list_all (\<lambda>c. \<not> line_terminator c) m' \<Longrightarrow> acc @ m' \<noteq> [] \<Longrightarrow> p \<noteq> [] \<Longrightarrow>
   list_all (\<lambda>c. \<not> line_terminator c) p \<Longrightarrow>
   match_groups acc (m' @ js '';base64,'' @ p) \<noteq> None"
proof (induction m' arbitrary: acc)
  case Nil
  then have t: "match_tail (js '';base64,'' @ p) = Some p"
    by (simp add: match_tail_Some)
  from Nil have "acc \<noteq> []" by simp
  with t show ?case
    by (simp add: sep_head [of p] split: option.splits)
next
  case (Cons c cs)
  then have "match_groups (acc @ [c]) (cs @ js '';base64,'' @ p) \<noteq> None"
    by simp
  with Cons.prems show ?case
    by (auto split: option.splits)
qed

lemma match_data_uri_sound:
  assumes "match_data_uri input = Some (mime, payload)"
  shows "input = js ''data:'' @ mime @ js '';base64,'' @ payload \<and> mime \<noteq> [] \<and> payload \<noteq> []
         \<and> list_all (\<lambda>c. \<not> line_terminator c) mime \<and> list_all (\<lambda>c. \<not> line_terminator c) payload"
proof -
  from assms have p: "prefix (js ''data:'') input"
    and g: "match_groups [] (drop 5 input) = Some (mime, payload)"
    by (auto simp: match_data_uri_def split: if_splits)
  from p have i: "input = js ''data:'' @ drop 5 input"
    by (auto simp: prefix_def js_def)
  from match_groups_sound [OF g] have
    "drop 5 input = mime @ js '';base64,'' @ payload \<and> mime \<noteq> [] \<and> payload \<noteq> []
     \<and> list_all (\<lambda>c. \<not> line_terminator c) mime \<and> list_all (\<lambda>c. \<not> line_terminator c) payload"
    by auto
  with i show ?thesis by metis
qed

lemma match_data_uri_complete:
  assumes "mime \<noteq> []" "payload \<noteq> []"
    "list_all (\<lambda>c. \<not> line_terminator c) mime" "list_all (\<lambda>c. \<not> line_terminator c) payload"
  shows "match_data_uri (js ''data:'' @ mime @ js '';base64,'' @ payload) \<noteq> None"
proof -
  have "drop 5 (js ''data:'' @ mime @ js '';base64,'' @ payload) = mime @ js '';base64,'' @ payload"
    by (simp add: js_def)
  moreover have "prefix (js ''data:'') (js ''data:'' @ mime @ js '';base64,'' @ payload)"
    by simp
  ultimately show ?thesis
    using match_groups_complete [of mime "[]" payload] assms
    by (simp add: match_data_uri_def)
qed


text \<open>The first group is greedy: of all ways to read the input as group, separator and
  group, the match has the shortest second group.\<close>

lemma match_groups_greedy:
  assumes "match_groups acc r = Some (m, p)"
    and "r = m2 @ js '';base64,'' @ p2"
    and "list_all (\<lambda>c. \<not> line_terminator c) m2" "acc @ m2 \<noteq> []" "p2 \<noteq> []"
    and "list_all (\<lambda>c. \<not> line_terminator c) p2"
  shows "length p \<le> length p2"
  using assms
proof (induction r arbitrary: acc m2)
  case Nil
  then show ?case by simp
next
  case step: (Cons c cs)
  show ?case
  proof (cases m2)
    case Nil
    from match_groups_sound [OF step.prems(1)] obtain m' where
      "c # cs = m' @ js '';base64,'' @ p" by blast
    with step.prems(2) Nil have "length (js '';base64,'' @ p2) = length (m' @ js '';base64,'' @ p)"
      by simp
    then show ?thesis by simp
  next
    case (Cons d ds)
    with step.prems have c: "\<not> line_terminator c" and cs: "cs = ds @ js '';base64,'' @ p2"
      and ds: "list_all (\<lambda>c. \<not> line_terminator c) ds"
      by simp_all
    have "match_groups (acc @ [c]) cs \<noteq> None"
      unfolding cs using ds step.prems(5,6) by (intro match_groups_complete) simp_all
    with step.prems(1) c have rec: "match_groups (acc @ [c]) cs = Some (m, p)"
      by (auto split: option.splits)
    show ?thesis
      using step.IH [OF rec cs ds _ step.prems(5,6)] by simp
  qed
qed

lemma match_data_uri_greedy:
  assumes "match_data_uri input = Some (mime, payload)"
    and "input = js ''data:'' @ mime2 @ js '';base64,'' @ payload2"
    and "mime2 \<noteq> []" "payload2 \<noteq> []"
    and "list_all (\<lambda>c. \<not> line_terminator c) mime2" "list_all (\<lambda>c. \<not> line_terminator c) payload2"
  shows "length payload \<le> length payload2"
proof -
  have d: "drop 5 input = mime2 @ js '';base64,'' @ payload2"
    unfolding assms(2) by (simp add: js_def)
  from assms(1) have g: "match_groups [] (drop 5 input) = Some (mime, payload)"
    by (auto simp: match_data_uri_def split: if_splits)
  show ?thesis
    using match_groups_greedy [OF g d assms(5) _ assms(4,6)] assms(3) by simp
qed

subsection \<open>The branches of \<open>preprocessInput\<close>\<close>

lemma data_image_not_url:
  assumes "prefix (js ''data:image/'') input"
  shows "\<not> (prefix (js ''http://'') input \<or> prefix (js ''https://'') input)"
proof (cases input)
  case Nil
  with assms show ?thesis by (simp add: js_def)
next
  case (Cons c cs)
  with assms have "c = of_char CHR ''d''" by (simp add: js_def)
  with Cons show ?thesis by (simp add: js_def)
qed

lemma data_image_data:
  "prefix (js ''data:image/'') input \<Longrightarrow> prefix (js ''data:'') input"
  by (auto simp: prefix_def js_def)

lemma throw_invalid_input:
  "throw_fromError pf (ImgfansError1 (js ''Invalid input: must be a valid URL, file path, or base64 string''))
     = new_ImgfansError (js ''Invalid input: must be a valid URL, file path, or base64 string'')
         JUndefined JUndefined
         (ImgfansError1 (js ''Invalid input: must be a valid URL, file path, or base64 string''))"
  by (rule throw_fromError_ImgfansError1) simp

lemma preprocessInput_url:
  assumes "prefix (js ''http://'') input \<or> prefix (js ''https://'') input"
  shows "preprocessInput pf (StringInput input) customFilename =
     ((case axios_get pf input of
         Inl e \<Rightarrow> Inl (throw_fromError pf e)
       | Inr buffer \<Rightarrow>
           (case url_filename pf input customFilename of
              Inl e \<Rightarrow> Inl (throw_fromError pf e)
            | Inr name \<Rightarrow> Inr (BufferSource buffer, name))),
      [HttpGet input])"
  using assms by (simp add: preprocessInput_def split: sum.splits)

lemma preprocessInput_base64:
  assumes "prefix (js ''data:image/'') input" "match_data_uri input = Some (mime, payload)"
  shows "preprocessInput pf (StringInput input) customFilename =
     (Inr (BufferSource (Buffer_from_base64 pf payload),
           or_default customFilename (js ''image.png'')), [])"
  using assms data_image_not_url [OF assms(1)]
  by (simp add: preprocessInput_def preprocess_non_url_def)

lemma preprocessInput_file:
  assumes "\<not> (prefix (js ''http://'') input \<or> prefix (js ''https://'') input)"
    "\<not> (prefix (js ''data:image/'') input \<and> match_data_uri input \<noteq> None)"
    "existsSync pf input"
  shows "preprocessInput pf (StringInput input) customFilename =
     (Inr (FileStream input, or_default customFilename (basename pf input)),
      [FsExists input, FsCreateReadStream input])"
proof -
  have "(if prefix (js ''data:image/'') input then match_data_uri input else None) = None"
    using assms(2) by (cases "match_data_uri input") simp_all
  with assms(1,3) show ?thesis
    by (simp add: preprocessInput_def preprocess_non_url_def)
qed

lemma preprocessInput_invalid:
  assumes "\<not> (prefix (js ''http://'') input \<or> prefix (js ''https://'') input)"
    "\<not> (prefix (js ''data:image/'') input \<and> match_data_uri input \<noteq> None)"
    "\<not> existsSync pf input"
  shows "preprocessInput pf (StringInput input) customFilename =
     (Inl (new_ImgfansError (js ''Invalid input: must be a valid URL, file path, or base64 string'')
            JUndefined JUndefined
            (ImgfansError1 (js ''Invalid input: must be a valid URL, file path, or base64 string''))),
      [FsExists input])"
proof -
  have "(if prefix (js ''data:image/'') input then match_data_uri input else None) = None"
    using assms(2) by (cases "match_data_uri input") simp_all
  with assms(1,3) show ?thesis
    by (simp add: preprocessInput_def preprocess_non_url_def throw_invalid_input)
qed

subsection \<open>Evaluation on the example platform\<close>

lemma example_platform_simps:
  "existsSync example_platform p = (p = js ''/tmp/cat.png'' \<or> p = js ''data:image/png;base64,QUJD'')"
  "basename example_platform = after_last_slash"
  "URL_pathname example_platform u = (if u = js ''https://example.com/a/b.jpg'' then Inr (js ''/a/b.jpg'')
                                      else Inl (TypeError (js ''Invalid URL'')))"
  "axios_get example_platform u = (if u = js ''https://example.com/a/b.jpg'' then Inr [0xFF, 0xD8]
                                   else Inl not_found_error)"
  "Buffer_from_base64 example_platform = base64_decode"
  by (simp_all add: example_platform_def)

lemma match_png: "match_data_uri (js ''data:image/png;base64,QUJD'') = Some (js ''image/png'', js ''QUJD'')"
  by (simp add: match_data_uri_def match_tail_def js_def line_terminator_def)

lemma match_text: "match_data_uri (js ''data:text/plain;base64,QUJD'') = Some (js ''text/plain'', js ''QUJD'')"
  by (simp add: match_data_uri_def match_tail_def js_def line_terminator_def)

lemma match_raw: "match_data_uri (js ''data:image/png,rawdata'') = None"
  by (simp add: match_data_uri_def match_tail_def js_def line_terminator_def)

lemma decode_QUJD: "base64_decode (js ''QUJD'') = [0x41, 0x42, 0x43]"
  by (simp add: base64_decode_def js_def unbase64_def unat_of_char16)

lemma basename_cat: "after_last_slash (js ''/tmp/cat.png'') = js ''cat.png''"
  by (simp add: after_last_slash_def js_def)

lemma basename_b: "after_last_slash (js ''/a/b.jpg'') = js ''b.jpg''"
  by (simp add: after_last_slash_def js_def)

lemma basename_data: "after_last_slash (js ''data:image/png;base64,QUJD'') = js ''png;base64,QUJD''"
  by (simp add: after_last_slash_def js_def)

lemma prefix_js [simp]: "prefix (js a) (js b) = prefix a b"
  unfolding js_def by (induction a arbitrary: b) (case_tac b; simp)+

subsection \<open>What \<open>preprocessInput\<close> does with each input\<close>

text \<open>
  C1: a string input is classified in a fixed order and the first match wins. A string
  starting with http:// or https:// is fetched: the only call is the GET, and the outcome
  is that of the fetch and of the file name taken from the URL, whatever else the string
  looks like. Otherwise a string in the base64 branch (it starts with data:image/ and
  matches the pattern) is decoded, with no call. Otherwise a string that names an
  existing file is opened as a stream. Otherwise the operation throws the ImgfansError
  "Invalid input: must be a valid URL, file path, or base64 string".
\<close>

theorem string_input_priority:
  "(prefix (js ''http://'') input \<or> prefix (js ''https://'') input \<longrightarrow>
      preprocessInput pf (StringInput input) customFilename =
        ((case axios_get pf input of
            Inl e \<Rightarrow> Inl (throw_fromError pf e)
          | Inr buffer \<Rightarrow>
              (case url_filename pf input customFilename of
                 Inl e \<Rightarrow> Inl (throw_fromError pf e)
               | Inr name \<Rightarrow> Inr (BufferSource buffer, name))),
         [HttpGet input]))
   \<and> (\<not> (prefix (js ''http://'') input \<or> prefix (js ''https://'') input) \<and>
      prefix (js ''data:image/'') input \<and> match_data_uri input = Some (mime, payload) \<longrightarrow>
      preprocessInput pf (StringInput input) customFilename =
        (Inr (BufferSource (Buffer_from_base64 pf payload),
              or_default customFilename (js ''image.png'')), []))
   \<and> (\<not> (prefix (js ''http://'') input \<or> prefix (js ''https://'') input) \<and>
      \<not> (prefix (js ''data:image/'') input \<and> match_data_uri input \<noteq> None) \<and>
      existsSync pf input \<longrightarrow>
      preprocessInput pf (StringInput input) customFilename =
        (Inr (FileStream input, or_default customFilename (basename pf input)),
         [FsExists input, FsCreateReadStream input]))
   \<and> (\<not> (prefix (js ''http://'') input \<or> prefix (js ''https://'') input) \<and>
      \<not> (prefix (js ''data:image/'') input \<and> match_data_uri input \<noteq> None) \<and>
      \<not> existsSync pf input \<longrightarrow>
      preprocessInput pf (StringInput input) customFilename =
        (Inl (new_ImgfansError (js ''Invalid input: must be a valid URL, file path, or base64 string'')
               JUndefined JUndefined
               (ImgfansError1 (js ''Invalid input: must be a valid URL, file path, or base64 string''))),
         [FsExists input]))"
  using preprocessInput_url [of input pf customFilename]
    preprocessInput_base64 [of input mime payload pf customFilename]
    preprocessInput_file [of input pf customFilename]
    preprocessInput_invalid [of input pf customFilename]
  by blast

theorem string_input_priority_witness:
  "preprocessInput example_platform (StringInput (js ''https://example.com/a/b.jpg'')) None
     = (Inr (BufferSource [0xFF, 0xD8], js ''b.jpg''), [HttpGet (js ''https://example.com/a/b.jpg'')])
   \<and> existsSync example_platform (js ''data:image/png;base64,QUJD'')
   \<and> preprocessInput example_platform (StringInput (js ''data:image/png;base64,QUJD'')) None
     = (Inr (BufferSource [0x41, 0x42, 0x43], js ''image.png''), [])
   \<and> preprocessInput example_platform (StringInput (js ''/tmp/cat.png'')) None
     = (Inr (FileStream (js ''/tmp/cat.png''), js ''cat.png''),
        [FsExists (js ''/tmp/cat.png''), FsCreateReadStream (js ''/tmp/cat.png'')])
   \<and> preprocessInput example_platform (StringInput (js ''cat.png'')) None
     = (Inl (new_ImgfansError (js ''Invalid input: must be a valid URL, file path, or base64 string'')
              JUndefined JUndefined
              (ImgfansError1 (js ''Invalid input: must be a valid URL, file path, or base64 string''))),
        [FsExists (js ''cat.png'')])"
  using string_input_priority [where input = "js ''https://example.com/a/b.jpg''"
      and pf = example_platform and customFilename = None]
    string_input_priority [where input = "js ''data:image/png;base64,QUJD''"
      and mime = "js ''image/png''" and payload = "js ''QUJD''"
      and pf = example_platform and customFilename = None]
    string_input_priority [where input = "js ''/tmp/cat.png''"
      and pf = example_platform and customFilename = None]
    string_input_priority [where input = "js ''cat.png''"
      and pf = example_platform and customFilename = None]
  by (simp add: example_platform_simps match_png decode_QUJD basename_cat basename_b url_filename_def)


text \<open>
  C2, as the code has it: the base64 branch is entered only by a string that starts with
  data:image/. Such a string that matches \<open>data:<mime>;base64,<payload>\<close> is decoded:
  the bytes are the decoded payload, no call is made, and the file name is the caller's
  hint when it is given and not empty, else image.png.
\<close>

theorem data_image_uri_decoded:
  assumes "prefix (js ''data:image/'') input"
    and "match_data_uri input = Some (mime, payload)"
  shows "preprocessInput pf (StringInput input) customFilename =
           (Inr (BufferSource (Buffer_from_base64 pf payload),
                 (case customFilename of
                    None \<Rightarrow> js ''image.png''
                  | Some hint \<Rightarrow> if hint = [] then js ''image.png'' else hint)), [])"
  using preprocessInput_base64 [OF assms, of pf customFilename]
  by (cases customFilename) simp_all

theorem data_image_uri_decoded_witness:
  "prefix (js ''data:image/'') (js ''data:image/png;base64,QUJD'')
   \<and> match_data_uri (js ''data:image/png;base64,QUJD'') = Some (js ''image/png'', js ''QUJD'')
   \<and> preprocessInput example_platform (StringInput (js ''data:image/png;base64,QUJD'')) None
       = (Inr (BufferSource [0x41, 0x42, 0x43], js ''image.png''), [])
   \<and> preprocessInput example_platform (StringInput (js ''data:image/png;base64,QUJD'')) (Some (js ''abc.png''))
       = (Inr (BufferSource [0x41, 0x42, 0x43], js ''abc.png''), [])"
proof -
  have p: "prefix (js ''data:image/'') (js ''data:image/png;base64,QUJD'')" by simp
  show ?thesis
    using p match_png data_image_uri_decoded [OF p match_png, of example_platform None]
      data_image_uri_decoded [OF p match_png, of example_platform "Some (js ''abc.png'')"]
    by (simp add: example_platform_simps decode_QUJD)
qed

theorem data_uri_counterexample:
  "match_data_uri (js ''data:text/plain;base64,QUJD'') = Some (js ''text/plain'', js ''QUJD'')
   \<and> preprocessInput example_platform (StringInput (js ''data:text/plain;base64,QUJD'')) None
       = (Inl (new_ImgfansError (js ''Invalid input: must be a valid URL, file path, or base64 string'')
                JUndefined JUndefined
                (ImgfansError1 (js ''Invalid input: must be a valid URL, file path, or base64 string''))),
          [FsExists (js ''data:text/plain;base64,QUJD'')])
   \<and> preprocessInput example_platform (StringInput (js ''data:image/png;base64,QUJD'')) (Some [])
       = (Inr (BufferSource [0x41, 0x42, 0x43], js ''image.png''), [])"
proof -
  have "preprocessInput example_platform (StringInput (js ''data:text/plain;base64,QUJD'')) None
       = (Inl (new_ImgfansError (js ''Invalid input: must be a valid URL, file path, or base64 string'')
                JUndefined JUndefined
                (ImgfansError1 (js ''Invalid input: must be a valid URL, file path, or base64 string''))),
          [FsExists (js ''data:text/plain;base64,QUJD'')])"
    by (rule preprocessInput_invalid) (simp_all add: example_platform_simps)
  moreover have "preprocessInput example_platform (StringInput (js ''data:image/png;base64,QUJD'')) (Some [])
       = (Inr (BufferSource [0x41, 0x42, 0x43], js ''image.png''), [])"
    using preprocessInput_base64 [OF _ match_png, of example_platform "Some []"]
    by (simp add: example_platform_simps decode_QUJD)
  ultimately show ?thesis
    using match_text by simp
qed

text \<open>
  C10: a string that starts with data:image/ and does not match the pattern is not
  decoded and raises no decoding error. The existence of a file of that name is checked:
  when there is one it is opened as a stream, and when there is none the operation throws
  the ImgfansError "Invalid input: must be a valid URL, file path, or base64 string".
\<close>

theorem unmatched_data_image_falls_through:
  assumes "prefix (js ''data:image/'') input"
    and "match_data_uri input = None"
  shows "(existsSync pf input \<longrightarrow>
            preprocessInput pf (StringInput input) customFilename =
              (Inr (FileStream input, or_default customFilename (basename pf input)),
               [FsExists input, FsCreateReadStream input]))
       \<and> (\<not> existsSync pf input \<longrightarrow>
            preprocessInput pf (StringInput input) customFilename =
              (Inl (new_ImgfansError (js ''Invalid input: must be a valid URL, file path, or base64 string'')
                     JUndefined JUndefined
                     (ImgfansError1 (js ''Invalid input: must be a valid URL, file path, or base64 string''))),
               [FsExists input]))"
  using assms data_image_not_url [OF assms(1)]
    preprocessInput_file [of input pf customFilename]
    preprocessInput_invalid [of input pf customFilename]
  by simp

theorem unmatched_data_image_falls_through_witness:
  "prefix (js ''data:image/'') (js ''data:image/png,rawdata'')
   \<and> match_data_uri (js ''data:image/png,rawdata'') = None
   \<and> \<not> existsSync example_platform (js ''data:image/png,rawdata'')
   \<and> preprocessInput example_platform (StringInput (js ''data:image/png,rawdata'')) None
       = (Inl (new_ImgfansError (js ''Invalid input: must be a valid URL, file path, or base64 string'')
                JUndefined JUndefined
                (ImgfansError1 (js ''Invalid input: must be a valid URL, file path, or base64 string''))),
          [FsExists (js ''data:image/png,rawdata'')])
   \<and> existsSync (example_platform\<lparr>existsSync := \<lambda>p. True\<rparr>) (js ''data:image/png,rawdata'')
   \<and> preprocessInput (example_platform\<lparr>existsSync := \<lambda>p. True\<rparr>)
         (StringInput (js ''data:image/png,rawdata'')) None
       = (Inr (FileStream (js ''data:image/png,rawdata''), js ''png,rawdata''),
          [FsExists (js ''data:image/png,rawdata''), FsCreateReadStream (js ''data:image/png,rawdata'')])"
proof -
  have p: "prefix (js ''data:image/'') (js ''data:image/png,rawdata'')" by simp
  have b: "after_last_slash (js ''data:image/png,rawdata'') = js ''png,rawdata''"
    by (simp add: after_last_slash_def js_def)
  show ?thesis
    using p match_raw unmatched_data_image_falls_through [OF p match_raw, of example_platform None]
      unmatched_data_image_falls_through [OF p match_raw, of "example_platform\<lparr>existsSync := \<lambda>p. True\<rparr>" None]
    by (simp add: example_platform_simps b)
qed

text \<open>
  C7, as the code has it. A custom file name that is given and not empty is the file name
  in every branch that returns. Without one (none given, or the empty string): a string
  that reaches the file branch (not a URL, not in the base64 branch) and names an
  existing file gets the base name of the path; a URL whose fetch and parse succeed gets
  the base name of the URL's path; a Buffer gets image.png.
\<close>

theorem derived_filename:
  "(given customFilename \<and> fst (preprocessInput pf anyInput customFilename) = Inr (source, name) \<longrightarrow>
      Some name = customFilename)
   \<and> (\<not> given customFilename \<longrightarrow>
        (\<not> (prefix (js ''http://'') input \<or> prefix (js ''https://'') input) \<and>
         \<not> (prefix (js ''data:image/'') input \<and> match_data_uri input \<noteq> None) \<and>
         existsSync pf input \<longrightarrow>
           fst (preprocessInput pf (StringInput input) customFilename)
             = Inr (FileStream input, basename pf input))
      \<and> ((prefix (js ''http://'') input \<or> prefix (js ''https://'') input) \<and>
         axios_get pf input = Inr body \<and> URL_pathname pf input = Inr pathname \<longrightarrow>
           fst (preprocessInput pf (StringInput input) customFilename)
             = Inr (BufferSource body, basename pf pathname))
      \<and> fst (preprocessInput pf (BufferInput buffer) customFilename)
             = Inr (BufferSource buffer, js ''image.png''))"
proof -
  have override: "Some name = customFilename"
    if g: "given customFilename"
      and r: "fst (preprocessInput pf anyInput customFilename) = Inr (source, name)"
  proof -
    from g obtain f where f: "customFilename = Some f" "f \<noteq> []"
      by (cases customFilename) auto
    have d: "or_default customFilename x = f" for x
      using f by simp
    show ?thesis
    proof (cases anyInput)
      case (StringInput s)
      show ?thesis
      proof (cases "prefix (js ''http://'') s \<or> prefix (js ''https://'') s")
        case True
        with r g show ?thesis
          unfolding StringInput preprocessInput_url [OF True]
          by (auto simp: url_filename_def d f split: sum.splits)
      next
        case False
        with r show ?thesis
          unfolding StringInput
          by (auto simp: preprocessInput_def preprocess_non_url_def d f
              split: option.splits if_splits)
      qed
    qed (use r in \<open>auto simp: preprocessInput_def d f\<close>)
  qed
  have absent: "or_default customFilename x = x" if "\<not> given customFilename" for x
    using that by (cases customFilename) auto
  have file_case: "fst (preprocessInput pf (StringInput input) customFilename)
             = Inr (FileStream input, basename pf input)"
    if "\<not> given customFilename"
      "\<not> (prefix (js ''http://'') input \<or> prefix (js ''https://'') input)"
      "\<not> (prefix (js ''data:image/'') input \<and> match_data_uri input \<noteq> None)"
      "existsSync pf input"
    using that by (simp add: preprocessInput_file absent)
  have url_case: "fst (preprocessInput pf (StringInput input) customFilename)
             = Inr (BufferSource body, basename pf pathname)"
    if "\<not> given customFilename"
      "prefix (js ''http://'') input \<or> prefix (js ''https://'') input"
      "axios_get pf input = Inr body" "URL_pathname pf input = Inr pathname"
    using that by (simp add: preprocessInput_url url_filename_def)
  have buffer_case: "fst (preprocessInput pf (BufferInput buffer) customFilename)
             = Inr (BufferSource buffer, js ''image.png'')"
    if "\<not> given customFilename"
    using that by (simp add: preprocessInput_def absent)
  show ?thesis
    using override file_case url_case buffer_case by blast
qed

theorem derived_filename_witness:
  "fst (preprocessInput example_platform (BufferInput [0x89]) (Some (js ''custom-name.jpg'')))
     = Inr (BufferSource [0x89], js ''custom-name.jpg'')
   \<and> fst (preprocessInput example_platform (StringInput (js ''/tmp/cat.png'')) None)
     = Inr (FileStream (js ''/tmp/cat.png''), js ''cat.png'')
   \<and> fst (preprocessInput example_platform (StringInput (js ''https://example.com/a/b.jpg'')) None)
     = Inr (BufferSource [0xFF, 0xD8], js ''b.jpg'')
   \<and> fst (preprocessInput example_platform (BufferInput [0x89]) None)
     = Inr (BufferSource [0x89], js ''image.png'')"
proof -
  have 1: "fst (preprocessInput example_platform (BufferInput [0x89]) (Some (js ''custom-name.jpg'')))
     = Inr (BufferSource [0x89], js ''custom-name.jpg'')"
    by (simp add: preprocessInput_def)
  show ?thesis
    using 1 derived_filename [where customFilename = "Some (js ''custom-name.jpg'')"
        and pf = example_platform and anyInput = "BufferInput [0x89]"
        and source = "BufferSource [0x89]" and name = "js ''custom-name.jpg''"]
      derived_filename [where customFilename = None and pf = example_platform
        and input = "js ''/tmp/cat.png''" and buffer = "[0x89]"]
      derived_filename [where customFilename = None and pf = example_platform
        and input = "js ''https://example.com/a/b.jpg''" and body = "[0xFF, 0xD8]"
        and pathname = "js ''/a/b.jpg''"]
    by (simp add: example_platform_simps basename_cat basename_b)
qed

theorem derived_filename_counterexample:
  "fst (preprocessInput example_platform (BufferInput [0x89]) (Some []))
     = Inr (BufferSource [0x89], js ''image.png'')
   \<and> existsSync example_platform (js ''data:image/png;base64,QUJD'')
   \<and> basename example_platform (js ''data:image/png;base64,QUJD'') = js ''png;base64,QUJD''
   \<and> fst (preprocessInput example_platform (StringInput (js ''data:image/png;base64,QUJD'')) None)
     = Inr (BufferSource [0x41, 0x42, 0x43], js ''image.png'')"
  using preprocessInput_base64 [OF _ match_png, of example_platform None]
  by (simp add: preprocessInput_def example_platform_simps basename_data decode_QUJD)

section \<open>Base64: proofs\<close>

lemma base64_chars:
  "list_all (\<lambda>n. unbase64 (base64_char n) = Some n \<and> unat (base64_char n) mod 256 \<noteq> 61) [0..<64]"
  by (simp add: upt_rec [of _ "numeral _"] upt_rec [of 0] base64_char_def base64_alphabet_def js_def
      unbase64_def unat_of_char16)

lemma unbase64_char:
  assumes "n < 64"
  shows "unbase64 (base64_char n) = Some n" and "unat (base64_char n) mod 256 \<noteq> 61"
proof -
  have "n \<in> set [0..<64]" using assms by simp
  with base64_chars show "unbase64 (base64_char n) = Some n"
    and "unat (base64_char n) mod 256 \<noteq> 61"
    unfolding list_all_iff by blast+
qed

lemma sextets_char: "n < 64 \<Longrightarrow> sextets (base64_char n # cs) = n # sextets cs"
  by (simp add: unbase64_char)

lemma sextets_pad: "sextets (0x3D # cs) = []"
  by simp

lemma byte_less: "unat (a :: byte) < 256"
  using unsigned_less [of a, where ?'a = nat] by simp

lemma sextet_bounds:
  fixes x y :: nat
  assumes "x < 256" "y < 256"
  shows "x div 4 < 64" "(x mod 4) * 16 + y div 16 < 64" "(x mod 16) * 4 + y div 64 < 64"
    "x mod 64 < 64" "(x mod 4) * 16 < 64" "(x mod 16) * 4 < 64"
  using assms by simp_all

lemma regroup:
  fixes x y z :: nat
  assumes "y < 256" "z < 256"
  shows "x div 4 * 4 + ((x mod 4) * 16 + y div 16) div 16 = x"
    and "(((x mod 4) * 16 + y div 16) mod 16) * 16 + ((y mod 16) * 4 + z div 64) div 4 = y"
    and "x div 4 * 4 + ((x mod 4) * 16) div 16 = x"
    and "(((x mod 4) * 16 + y div 16) mod 16) * 16 + ((y mod 16) * 4) div 4 = y"
    and "(((x mod 16) * 4 + y div 64) mod 4) * 64 + y mod 64 = y"
  using assms by simp_all


text \<open>Decoding inverts encoding.\<close>

lemma decode_encode: "base64_decode (base64_encode bs) = bs"
proof (induction bs rule: base64_encode.induct)
  case (1 a b c rest)
  have s: "sextets (base64_encode (a # b # c # rest)) =
           unat a div 4 # ((unat a mod 4) * 16 + unat b div 16)
           # ((unat b mod 16) * 4 + unat c div 64) # unat c mod 64 # sextets (base64_encode rest)"
    using sextet_bounds [OF byte_less [of a] byte_less [of b]]
      sextet_bounds [OF byte_less [of b] byte_less [of c]]
      sextet_bounds [OF byte_less [of c] byte_less [of c]]
    by (simp add: sextets_char del: sextets.simps)
  have "base64_decode (base64_encode (a # b # c # rest)) =
          [of_nat (unat a), of_nat (unat b), of_nat (unat c)] @ base64_decode (base64_encode rest)"
    unfolding base64_decode_def s
    using regroup [OF byte_less [of b] byte_less [of c], of "unat a"]
      regroup(5) [OF byte_less [of c] byte_less [of c], of "unat b"]
    by simp
  with 1 show ?case by simp
next
  case (2 a b)
  have s: "sextets (base64_encode [a, b]) =
           [unat a div 4, (unat a mod 4) * 16 + unat b div 16, (unat b mod 16) * 4]"
    using sextet_bounds [OF byte_less [of a] byte_less [of b]]
      sextet_bounds [OF byte_less [of b] byte_less [of b]]
    by (simp add: sextets_char sextets_pad del: sextets.simps)
  show ?case
    unfolding base64_decode_def s
    using regroup [OF byte_less [of b] byte_less [of b], of "unat a"]
    by simp
next
  case (3 a)
  have s: "sextets (base64_encode [a]) = [unat a div 4, (unat a mod 4) * 16]"
    using sextet_bounds [OF byte_less [of a] byte_less [of a]]
    by (simp add: sextets_char sextets_pad del: sextets.simps)
  show ?case
    unfolding base64_decode_def s
    using regroup [OF byte_less [of a] byte_less [of a], of "unat a"]
    by simp
next
  case 4
  show ?case by (simp add: base64_decode_def)
qed

text \<open>The encoder writes whole groups of four characters.\<close>

lemma encode_length: "length (base64_encode bs) mod 4 = 0"
  by (induction bs rule: base64_encode.induct) simp_all

lemma no_decoder_round_trips:
  "length payload mod 4 \<noteq> 0 \<Longrightarrow> base64_encode (decoder payload) \<noteq> payload"
  using encode_length [of "decoder payload"] by auto

lemma match_QQ: "match_data_uri (js ''data:image/png;base64,QQ'') = Some (js ''image/png'', js ''QQ'')"
  by (simp add: match_data_uri_def match_tail_def js_def line_terminator_def)

lemma match_bang: "match_data_uri (js ''data:image/png;base64,!'') = Some (js ''image/png'', js ''!'')"
  by (simp add: match_data_uri_def match_tail_def js_def line_terminator_def)

text \<open>
  C9, as far as it holds: for a string that matches \<open>data:<mime>;base64,<payload>\<close> and
  whose payload is the padded base64 encoding of some bytes, decoding the payload and
  encoding the bytes again gives the payload back, character for character.
\<close>

theorem canonical_payload_round_trip:
  assumes "match_data_uri input = Some (mime, payload)"
    and "payload = base64_encode bytes"
  shows "base64_decode payload = bytes \<and> base64_encode (base64_decode payload) = payload"
  using assms by (simp add: decode_encode)

theorem canonical_payload_round_trip_witness:
  "match_data_uri (js ''data:image/png;base64,QUJD'') = Some (js ''image/png'', js ''QUJD'')
   \<and> js ''QUJD'' = base64_encode [0x41, 0x42, 0x43]
   \<and> base64_decode (js ''QUJD'') = [0x41, 0x42, 0x43]
   \<and> base64_encode (base64_decode (js ''QUJD'')) = js ''QUJD''"
proof -
  have e: "js ''QUJD'' = base64_encode [0x41, 0x42, 0x43]"
    by (simp add: base64_char_def base64_alphabet_def js_def)
  show ?thesis
    using match_png e canonical_payload_round_trip [OF match_png e] by simp
qed

theorem round_trip_counterexample:
  "match_data_uri (js ''data:image/png;base64,QQ'') = Some (js ''image/png'', js ''QQ'')
   \<and> base64_decode (js ''QQ'') = [0x41]
   \<and> base64_encode (base64_decode (js ''QQ'')) = js ''QQ==''
   \<and> base64_encode (base64_decode (js ''QQ'')) \<noteq> js ''QQ''
   \<and> match_data_uri (js ''data:image/png;base64,!'') = Some (js ''image/png'', js ''!'')
   \<and> base64_decode (js ''!'') = []
   \<and> base64_encode (base64_decode (js ''!'')) \<noteq> js ''!''"
proof -
  have 1: "base64_decode (js ''QQ'') = [0x41]"
    by (simp add: base64_decode_def js_def unbase64_def unat_of_char16)
  have 2: "base64_encode [0x41] = js ''QQ==''"
    by (simp add: base64_char_def base64_alphabet_def js_def)
  have 3: "base64_decode (js ''!'') = []"
    by (simp add: base64_decode_def js_def unbase64_def unat_of_char16)
  show ?thesis
    using match_QQ match_bang by (simp add: 1 2 3 del: base64_encode.simps(2-3))
qed

end
